theory Spec2Isabelle
  imports Complex_Main "HOL-Library.Char_ord" "HOL-Library.List_Lexorder"
begin

section \<open>Snapshot-testing harness: data model\<close>

text \<open>
  The harness of \<^verbatim>\<open>tests/snapshots/test_snapshots.py\<close> runs a model entry point inside a
  test-case directory, stages mock tables in a database before the run, removes them after
  it, and records or compares the files the model wrote.

  Python exceptions are values of type \<open>error\<close>; a function that can raise returns
  \<open>error + 'a\<close>, and one that also changes the file system or the database returns the
  changed state next to it, since in Python the effects performed before a raise stay.
  The type covers instances of \<^verbatim>\<open>Exception\<close>, which is what the handlers of the harness
  catch.

  Numbers held in files are exact reals: the tolerance checks of the comparison
  functions are stated over \<open>real\<close>, not over binary floating point.
\<close>

type_synonym path = "string list"

datatype error =
    ValueError string
  | KeyError string
  | TypeError
  | AssertionError
  | FileNotFoundError path
  | FileExistsError path
  | NotADirectoryError path
  | IsADirectoryError path
  | ParseError path
  | DatabaseError string
  | ModelError string

text \<open>A parsed JSON document, as \<^verbatim>\<open>json.load\<close> returns it.\<close>

datatype json =
    JNull
  | JBool bool
  | JInt int
  | JFloat real
  | JStr string
  | JList "json list"
  | JDict "(string \<times> json) list"

text \<open>
  A data frame is its columns in order, each a label with its cells; an \<^verbatim>\<open>.npz\<close> archive
  is its members in order, each a name with a one-dimensional array. All cells are
  numbers and every column is a column of floats: column dtypes, missing values and text
  cells are not represented.
\<close>

type_synonym frame = "(string \<times> real list) list"
type_synonym archive = "(string \<times> real list) list"

text \<open>A file is represented by what its reader parses it to.\<close>

datatype content =
    Csv frame
  | Json json
  | Npz archive
  | Parquet frame
  | Text string

datatype node = File content | Dir "(string \<times> node) list"

subsection \<open>Constants of the harness\<close>

definition ROOT_DIR :: path where
  "ROOT_DIR = []"

definition CASES_DIR :: path where
  "CASES_DIR = ROOT_DIR @ [''tests'', ''snapshots'', ''Cases'']"

definition EXPECTED_OUTPUTS_FOLDER :: string where
  "EXPECTED_OUTPUTS_FOLDER = ''ExpectedOutputs''"

definition OUTPUTS_FOLDER_NAME :: string where
  "OUTPUTS_FOLDER_NAME = ''Outputs''"

definition INPUTS_FOLDER_NAME :: string where
  "INPUTS_FOLDER_NAME = ''Inputs''"

definition DATABASE_FOLDER_NAME :: string where
  "DATABASE_FOLDER_NAME = ''_Database''"

definition DET_DB_SCHEMA :: string where
  "DET_DB_SCHEMA = ''SNAP''"

definition ABSOLUTE_TOLERANCE :: real where
  "ABSOLUTE_TOLERANCE = 1 / 10 ^ 8"

definition RELATIVE_TOLERANCE :: real where
  "RELATIVE_TOLERANCE = 0"

subsection \<open>The file system\<close>

text \<open>
  Paths are lists of components below \<open>ROOT_DIR\<close>. The operations are those of
  \<^verbatim>\<open>pathlib\<close>, \<^verbatim>\<open>os\<close> and \<^verbatim>\<open>shutil\<close> that the harness calls.
\<close>

fun lookup :: "node \<Rightarrow> path \<Rightarrow> node option" where
  "lookup n [] = Some n"
| "lookup (File c) (x # p) = None"
| "lookup (Dir es) (x # p) = (case map_of es x of None \<Rightarrow> None | Some n \<Rightarrow> lookup n p)"

definition is_dir :: "node \<Rightarrow> path \<Rightarrow> bool" where
  "is_dir t p = (case lookup t p of Some (Dir es) \<Rightarrow> True | _ \<Rightarrow> False)"

definition read_file :: "path \<Rightarrow> node \<Rightarrow> error + content" where
  "read_file p t =
     (case lookup t p of
        Some (File c) \<Rightarrow> Inr c
      | _ \<Rightarrow> Inl (FileNotFoundError p))"

fun delete :: "path \<Rightarrow> node \<Rightarrow> node" where
  "delete [] n = n"
| "delete (x # p) (File c) = File c"
| "delete [x] (Dir es) = Dir (filter (\<lambda>e. fst e \<noteq> x) es)"
| "delete (x # p) (Dir es) =
     Dir (map (\<lambda>e. if fst e = x then (x, delete p (snd e)) else e) es)"

text \<open>\<^verbatim>\<open>shutil.rmtree(path)\<close>: raises when the path is missing or is not a directory.\<close>

definition rmtree :: "path \<Rightarrow> node \<Rightarrow> error + node" where
  "rmtree p t =
     (case lookup t p of
        None \<Rightarrow> Inl (FileNotFoundError p)
      | Some (File c) \<Rightarrow> Inl (NotADirectoryError p)
      | Some (Dir es) \<Rightarrow> Inr (delete p t))"

fun mkdirs :: "path \<Rightarrow> node \<Rightarrow> node option" where
  "mkdirs p (File c) = None"
| "mkdirs [] (Dir es) = Some (Dir es)"
| "mkdirs (x # p) (Dir es) =
     (case map_of es x of
        None \<Rightarrow>
          (case mkdirs p (Dir []) of
             None \<Rightarrow> None
           | Some n \<Rightarrow> Some (Dir (es @ [(x, n)])))
      | Some n \<Rightarrow>
          (case mkdirs p n of
             None \<Rightarrow> None
           | Some n' \<Rightarrow> Some (Dir (map (\<lambda>e. if fst e = x then (x, n') else e) es))))"

text \<open>
  \<^verbatim>\<open>Path.mkdir(parents=True, exist_ok=True)\<close>: raises only when a file is in the way, at
  the path itself or at one of its parents.
\<close>

definition mkdir :: "path \<Rightarrow> node \<Rightarrow> error + node" where
  "mkdir p t =
     (case mkdirs p t of
        Some t' \<Rightarrow> Inr t'
      | None \<Rightarrow>
          (case lookup t p of
             Some (File c) \<Rightarrow> Inl (FileExistsError p)
           | _ \<Rightarrow> Inl (NotADirectoryError p)))"

fun put :: "path \<Rightarrow> node \<Rightarrow> node \<Rightarrow> node option" where
  "put [] new t = None"
| "put (x # p) new (File c) = None"
| "put [x] new (Dir es) =
     Some (Dir (if map_of es x = None then es @ [(x, new)]
                else map (\<lambda>e. if fst e = x then (x, new) else e) es))"
| "put (x # p) new (Dir es) =
     (case map_of es x of
        None \<Rightarrow> None
      | Some n \<Rightarrow>
          (case put p new n of
             None \<Rightarrow> None
           | Some n' \<Rightarrow> Some (Dir (map (\<lambda>e. if fst e = x then (x, n') else e) es))))"

text \<open>Writing a file: the parent must be a directory and the path itself must not be one.\<close>

definition write_file :: "path \<Rightarrow> content \<Rightarrow> node \<Rightarrow> error + node" where
  "write_file p c t =
     (if is_dir t p then Inl (IsADirectoryError p)
      else case put p (File c) t of
             None \<Rightarrow> Inl (FileNotFoundError p)
           | Some t' \<Rightarrow> Inr t')"

text \<open>
  \<^verbatim>\<open>shutil.copy2(src, dst)\<close>: the source must be a file; a destination that is a
  directory receives the file under the source's name.
\<close>

definition copy2 :: "path \<Rightarrow> path \<Rightarrow> node \<Rightarrow> error + node" where
  "copy2 src dst t =
     (case read_file src t of
        Inl e \<Rightarrow> Inl e
      | Inr c \<Rightarrow>
          write_file (if is_dir t dst \<and> src \<noteq> [] then dst @ [last src] else dst) c t)"

text \<open>
  \<^verbatim>\<open>shutil.copytree(src, dst)\<close>: lists the source first, then creates the destination,
  which must not exist yet, with its missing parents.
\<close>

definition copytree :: "path \<Rightarrow> path \<Rightarrow> node \<Rightarrow> error + node" where
  "copytree src dst t =
     (case lookup t src of
        None \<Rightarrow> Inl (FileNotFoundError src)
      | Some (File c) \<Rightarrow> Inl (NotADirectoryError src)
      | Some (Dir es) \<Rightarrow>
          (if lookup t dst \<noteq> None then Inl (FileExistsError dst)
           else case mkdirs (butlast dst) t of
                  None \<Rightarrow> Inl (NotADirectoryError dst)
                | Some t' \<Rightarrow>
                    (case put dst (Dir es) t' of
                       None \<Rightarrow> Inl (NotADirectoryError dst)
                     | Some t'' \<Rightarrow> Inr t'')))"

text \<open>
  \<^verbatim>\<open>os.walk(top)\<close>, top down: one pair per directory, its path relative to \<open>top\<close> and
  the names of the files in it. A missing \<open>top\<close> yields nothing. The order among
  siblings is the order of the entries.
\<close>

fun walk_node :: "path \<Rightarrow> node \<Rightarrow> (path \<times> string list) list"
  and walk_entries :: "path \<Rightarrow> (string \<times> node) list \<Rightarrow> (path \<times> string list) list" where
  "walk_node rel (File c) = []"
| "walk_node rel (Dir es) =
     (rel, map fst (filter (\<lambda>e. case snd e of File c \<Rightarrow> True | Dir d \<Rightarrow> False) es))
       # walk_entries rel es"
| "walk_entries rel [] = []"
| "walk_entries rel ((k, n) # es) = walk_node (rel @ [k]) n @ walk_entries rel es"

definition walk :: "path \<Rightarrow> node \<Rightarrow> (path \<times> string list) list" where
  "walk top_dir t = (case lookup t top_dir of Some n \<Rightarrow> walk_node [] n | None \<Rightarrow> [])"

text \<open>
  The files \<^verbatim>\<open>os.walk\<close> reaches, each as the relative path of its directory and its
  name, in the order of the two nested loops over the walk.
\<close>

definition walk_files :: "path \<Rightarrow> node \<Rightarrow> (path \<times> string) list" where
  "walk_files top_dir t =
     concat (map (\<lambda>d. map (\<lambda>f. (fst d, f)) (snd d)) (walk top_dir t))"

text \<open>\<^verbatim>\<open>Path.suffix\<close> of a file name: from the last dot, unless that dot is first or last.\<close>

fun rfind :: "char \<Rightarrow> string \<Rightarrow> nat option" where
  "rfind c [] = None"
| "rfind c (x # xs) =
     (case rfind c xs of
        Some i \<Rightarrow> Some (Suc i)
      | None \<Rightarrow> if x = c then Some 0 else None)"

definition suffix :: "string \<Rightarrow> string" where
  "suffix name =
     (case rfind (CHR ''.'') name of
        None \<Rightarrow> []
      | Some i \<Rightarrow> if 0 < i \<and> i + 1 < length name then drop i name else [])"

section \<open>Format-specific equality\<close>

subsection \<open>Tabular data\<close>

text \<open>
  \<^verbatim>\<open>pd.testing.assert_frame_equal(left, right, rtol, atol)\<close> is a library function. It is
  represented by its documented behaviour on numeric frames: the column labels and the
  row counts must agree, then every pair of cells must be close in the sense of
  \<^verbatim>\<open>math.isclose\<close>, which is what the library applies to a pair of numbers.
\<close>

definition isclose :: "real \<Rightarrow> real \<Rightarrow> real \<Rightarrow> real \<Rightarrow> bool" where
  "isclose a b rel_tol abs_tol =
     (\<bar>a - b\<bar> \<le> max (rel_tol * max \<bar>a\<bar> \<bar>b\<bar>) abs_tol)"

definition same_shape :: "frame \<Rightarrow> frame \<Rightarrow> bool" where
  "same_shape left right =
     (map fst left = map fst right \<and>
      map (\<lambda>c. length (snd c)) left = map (\<lambda>c. length (snd c)) right)"

definition assert_frame_equal :: "frame \<Rightarrow> frame \<Rightarrow> real \<Rightarrow> real \<Rightarrow> error + unit" where
  "assert_frame_equal left right rtol atol =
     (if \<not> same_shape left right then Inl AssertionError
      else if list_all2 (\<lambda>l r. list_all2 (\<lambda>a b. isclose a b rtol atol) (snd l) (snd r)) left right
      then Inr ()
      else Inl AssertionError)"

definition read_csv :: "path \<Rightarrow> node \<Rightarrow> error + frame" where
  "read_csv p t =
     (case read_file p t of
        Inl e \<Rightarrow> Inl e
      | Inr (Csv df) \<Rightarrow> Inr df
      | Inr _ \<Rightarrow> Inl (ParseError p))"

definition assert_csv :: "path \<Rightarrow> path \<Rightarrow> node \<Rightarrow> error + unit" where
  "assert_csv output_file_dir expected_output_file_dir t =
     (case read_csv output_file_dir t of
        Inl e \<Rightarrow> Inl e
      | Inr data \<Rightarrow>
          (case read_csv expected_output_file_dir t of
             Inl e \<Rightarrow> Inl e
           | Inr expected_data \<Rightarrow>
               assert_frame_equal data expected_data RELATIVE_TOLERANCE ABSOLUTE_TOLERANCE))"

subsection \<open>Structured documents\<close>

text \<open>
  Python's \<^verbatim>\<open>==\<close> on parsed documents. Booleans, integers and floats compare by numeric
  value across the three types; \<^verbatim>\<open>None\<close> and strings equal only their own kind; lists
  compare position by position; dictionaries compare as mappings, whatever the order of
  their items.
\<close>

fun num_of :: "json \<Rightarrow> real option" where
  "num_of (JBool b) = Some (if b then 1 else 0)"
| "num_of (JInt i) = Some (real_of_int i)"
| "num_of (JFloat r) = Some r"
| "num_of _ = None"

fun py_eq :: "json \<Rightarrow> json \<Rightarrow> bool"
  and py_eq_list :: "json list \<Rightarrow> json list \<Rightarrow> bool"
  and py_eq_items :: "(string \<times> json) list \<Rightarrow> (string \<times> json) list \<Rightarrow> bool" where
  "py_eq JNull b = (b = JNull)"
| "py_eq (JBool x) b = (num_of b = Some (if x then 1 else 0))"
| "py_eq (JInt x) b = (num_of b = Some (real_of_int x))"
| "py_eq (JFloat x) b = (num_of b = Some x)"
| "py_eq (JStr x) b = (b = JStr x)"
| "py_eq (JList xs) b = (case b of JList ys \<Rightarrow> py_eq_list xs ys | _ \<Rightarrow> False)"
| "py_eq (JDict xs) b =
     (case b of JDict ys \<Rightarrow> length xs = length ys \<and> py_eq_items xs ys | _ \<Rightarrow> False)"
| "py_eq_list [] ys = (ys = [])"
| "py_eq_list (x # xs) ys =
     (case ys of [] \<Rightarrow> False | y # ys' \<Rightarrow> py_eq x y \<and> py_eq_list xs ys')"
| "py_eq_items [] ys = True"
| "py_eq_items ((k, v) # xs) ys =
     ((case map_of ys k of None \<Rightarrow> False | Some v' \<Rightarrow> py_eq v v') \<and> py_eq_items xs ys)"

definition json_load :: "path \<Rightarrow> node \<Rightarrow> error + json" where
  "json_load p t =
     (case read_file p t of
        Inl e \<Rightarrow> Inl e
      | Inr (Json d) \<Rightarrow> Inr d
      | Inr _ \<Rightarrow> Inl (ParseError p))"

definition assert_json :: "path \<Rightarrow> path \<Rightarrow> node \<Rightarrow> error + unit" where
  "assert_json output_file_dir expected_output_file_dir t =
     (case json_load output_file_dir t of
        Inl e \<Rightarrow> Inl e
      | Inr data \<Rightarrow>
          (case json_load expected_output_file_dir t of
             Inl e \<Rightarrow> Inl e
           | Inr expected_data \<Rightarrow>
               if py_eq data expected_data then Inr () else Inl AssertionError))"

subsection \<open>Compressed array archives\<close>

text \<open>
  \<^verbatim>\<open>np.testing.assert_allclose(actual, desired, rtol, atol)\<close>, by its documented
  behaviour on one-dimensional arrays: the lengths must agree and every pair must
  satisfy \<open>\<bar>actual - desired\<bar> \<le> atol + rtol * \<bar>desired\<bar>\<close>.
\<close>

definition assert_allclose :: "real list \<Rightarrow> real list \<Rightarrow> real \<Rightarrow> real \<Rightarrow> error + unit" where
  "assert_allclose actual desired rtol atol =
     (if length actual = length desired \<and>
         list_all2 (\<lambda>a d. \<bar>a - d\<bar> \<le> atol + rtol * \<bar>d\<bar>) actual desired
      then Inr () else Inl AssertionError)"

definition np_load :: "path \<Rightarrow> node \<Rightarrow> error + archive" where
  "np_load p t =
     (case read_file p t of
        Inl e \<Rightarrow> Inl e
      | Inr (Npz a) \<Rightarrow> Inr a
      | Inr _ \<Rightarrow> Inl (ParseError p))"

text \<open>
  The loop over the members of the expected archive. Next to its outcome it returns the
  names of the members it handed to \<open>assert_allclose\<close>, in order, so that what was
  compared before a raise can be stated.
\<close>

fun compare_members :: "archive \<Rightarrow> archive \<Rightarrow> string list \<Rightarrow> string list \<times> (error + unit)" where
  "compare_members data expected_data [] = ([], Inr ())"
| "compare_members data expected_data (name # names) =
     (case map_of data name of
        None \<Rightarrow> ([], Inl (KeyError name))
      | Some actual \<Rightarrow>
          (case map_of expected_data name of
             None \<Rightarrow> ([], Inl (KeyError name))
           | Some desired \<Rightarrow>
               (case assert_allclose actual desired RELATIVE_TOLERANCE ABSOLUTE_TOLERANCE of
                  Inl e \<Rightarrow> ([name], Inl e)
                | Inr u \<Rightarrow>
                    (case compare_members data expected_data names of
                       (compared, r) \<Rightarrow> (name # compared, r)))))"

definition assert_npz_archives :: "archive \<Rightarrow> archive \<Rightarrow> string list \<times> (error + unit)" where
  "assert_npz_archives data expected_data =
     (if set (map fst data) \<noteq> set (map fst expected_data)
      then ([], Inl (KeyError ''The .npz archives have different keys.''))
      else compare_members data expected_data (map fst expected_data))"

definition assert_npz :: "path \<Rightarrow> path \<Rightarrow> node \<Rightarrow> string list \<times> (error + unit)" where
  "assert_npz output_file_dir expected_output_file_dir t =
     (case np_load output_file_dir t of
        Inl e \<Rightarrow> ([], Inl e)
      | Inr data \<Rightarrow>
          (case np_load expected_output_file_dir t of
             Inl e \<Rightarrow> ([], Inl e)
           | Inr expected_data \<Rightarrow> assert_npz_archives data expected_data))"

subsection \<open>Dispatch on the file extension\<close>

definition assert_file :: "path \<Rightarrow> path \<Rightarrow> node \<Rightarrow> error + unit" where
  "assert_file output_file_dir expected_output_file_dir t =
     (let extension = (if expected_output_file_dir = [] then []
                       else suffix (last expected_output_file_dir))
      in if extension = ''.csv'' then assert_csv output_file_dir expected_output_file_dir t
         else if extension = ''.json'' then assert_json output_file_dir expected_output_file_dir t
         else if extension = ''.npz'' then snd (assert_npz output_file_dir expected_output_file_dir t)
         else if extension = ''.html'' then Inr ()
         else Inl (ValueError (''File extension '' @ [CHR 0x27] @ extension @ [CHR 0x27]
                                 @ '' is not supported.'')))"

section \<open>The harness\<close>

subsection \<open>State and collaborators\<close>

text \<open>
  The state the harness works on: the file system, the working directory, the process
  environment, the tables present in the database schema, and the calls the database
  has served, oldest first.
\<close>

datatype db_event = Added string | Removed string

record world =
  fs :: node
  cwd :: path
  environ :: "(string \<times> string) list"
  db :: "string list"
  db_log :: "db_event list"

text \<open>
  What the harness takes from outside: the clock read when a case is staged, the
  database's decision to refuse an insertion (given the tables present and the new
  name), the model entry point, and the text Python's formatting gives a JSON value that
  is not a string. The model entry point reads the state and returns the file system it
  leaves with the exception it raised, if any. Connecting to the database and
  \<^verbatim>\<open>remove_table\<close> are taken to succeed; a refused \<^verbatim>\<open>add_table\<close> leaves no table.
\<close>

record externals =
  timestamp_unix :: "path \<Rightarrow> int"
  add_table_fails :: "string list \<Rightarrow> string \<Rightarrow> bool"
  main_model :: "world \<Rightarrow> node \<times> error option"
  format_value :: "json \<Rightarrow> string"

subsection \<open>Decimal text of integers\<close>

definition digit_char :: "nat \<Rightarrow> char" where
  "digit_char d = ''0123456789'' ! d"

fun show_nat :: "nat \<Rightarrow> string" where
  "show_nat n = (if n < 10 then [digit_char n] else show_nat (n div 10) @ [digit_char (n mod 10)])"

declare show_nat.simps [simp del]

definition show_int :: "int \<Rightarrow> string" where
  "show_int i = (if i < 0 then ''-'' @ show_nat (nat (- i)) else show_nat (nat i))"

text \<open>The format specification \<^verbatim>\<open>02d\<close>: zero padding to a width of two, the sign included.\<close>

definition format_02d :: "int \<Rightarrow> string" where
  "format_02d i = (if 0 \<le> i \<and> i < 10 then ''0'' @ show_int i else show_int i)"

text \<open>
  \<^verbatim>\<open>int(s)\<close> on an ASCII string: surrounding whitespace, an optional sign, decimal
  digits with single underscores between them; anything else is a \<^verbatim>\<open>ValueError\<close>.
\<close>

definition is_space :: "char \<Rightarrow> bool" where
  "is_space c = (c \<in> set [CHR '' '', CHR 0x09, CHR 0x0A, CHR 0x0B, CHR 0x0C, CHR 0x0D,
                           CHR 0x1C, CHR 0x1D, CHR 0x1E, CHR 0x1F])"

definition is_digit :: "char \<Rightarrow> bool" where
  "is_digit c = (c \<in> set ''0123456789'')"

definition digit_val :: "char \<Rightarrow> int" where
  "digit_val c = of_char c - 48"

definition strip :: "string \<Rightarrow> string" where
  "strip s = rev (dropWhile is_space (rev (dropWhile is_space s)))"

definition digits_ok :: "string \<Rightarrow> bool" where
  "digits_ok body =
     (body \<noteq> [] \<and> is_digit (hd body) \<and> is_digit (last body) \<and>
      list_all (\<lambda>c. is_digit c \<or> c = CHR ''_'') body \<and>
      list_all (\<lambda>cc. \<not> (fst cc = CHR ''_'' \<and> snd cc = CHR ''_'')) (zip body (tl body)))"

definition py_int :: "string \<Rightarrow> error + int" where
  "py_int s =
     (let t = strip s;
          negative = (t \<noteq> [] \<and> hd t = CHR ''-'');
          body = (if t \<noteq> [] \<and> (hd t = CHR ''-'' \<or> hd t = CHR ''+'') then tl t else t)
      in if digits_ok body
         then Inr ((if negative then - 1 else 1) *
                   foldl (\<lambda>a c. 10 * a + digit_val c) 0 (filter is_digit body))
         else Inl (ValueError s))"

subsection \<open>Case discovery\<close>

definition find_cases :: "node \<Rightarrow> path list" where
  "find_cases t =
     (case lookup t CASES_DIR of
        Some (Dir es) \<Rightarrow>
          map (\<lambda>name. CASES_DIR @ [name])
            (sort (map fst (filter (\<lambda>e. (case snd e of Dir d \<Rightarrow> True | File c \<Rightarrow> False)
                                        \<and> take 4 (fst e) = ''Case'') es)))
      | _ \<Rightarrow> [])"

text \<open>
  The two lines that choose the number of a new case:
  \<^verbatim>\<open>max_case_number = max(case_numbers) if len(case_numbers) > 0 else 0\<close> and
  \<^verbatim>\<open>min([c for c in range(1, max_case_number + 2) if c not in case_numbers])\<close>,
  where \<^verbatim>\<open>min\<close> of an empty list raises.
\<close>

definition new_case_number :: "int list \<Rightarrow> error + int" where
  "new_case_number case_numbers =
     (let max_case_number = (if length case_numbers > 0 then Max (set case_numbers) else 0);
          candidates = filter (\<lambda>c. c \<notin> set case_numbers) [1..max_case_number + 1]
      in if candidates = [] then Inl (ValueError ''min() arg is an empty sequence'')
         else Inr (Min (set candidates)))"

fun map_err :: "('a \<Rightarrow> error + 'b) \<Rightarrow> 'a list \<Rightarrow> error + 'b list" where
  "map_err f [] = Inr []"
| "map_err f (x # xs) =
     (case f x of
        Inl e \<Rightarrow> Inl e
      | Inr y \<Rightarrow> (case map_err f xs of Inl e \<Rightarrow> Inl e | Inr ys \<Rightarrow> Inr (y # ys)))"

definition create_new_case_folder :: "node \<Rightarrow> node \<times> (error + path)" where
  "create_new_case_folder t =
     (let cases = find_cases t
      in case map_err (\<lambda>c. py_int (drop 4 (last c))) cases of
           Inl e \<Rightarrow> (t, Inl e)
         | Inr case_numbers \<Rightarrow>
             (case new_case_number case_numbers of
                Inl e \<Rightarrow> (t, Inl e)
              | Inr n \<Rightarrow>
                  (let new_case_dir = CASES_DIR @ [''Case'' @ format_02d n]
                   in case mkdir new_case_dir t of
                        Inl e \<Rightarrow> (t, Inl e)
                      | Inr t' \<Rightarrow> (t', Inr new_case_dir))))"

subsection \<open>Mock data staging\<close>

definition add_table :: "externals \<Rightarrow> string \<Rightarrow> world \<Rightarrow> world \<times> (error + unit)" where
  "add_table ext table_name w =
     (if add_table_fails ext (db w) table_name then (w, Inl (DatabaseError table_name))
      else (w\<lparr>db := List.insert table_name (db w),
              db_log := db_log w @ [Added table_name]\<rparr>, Inr ()))"

definition remove_table :: "string \<Rightarrow> world \<Rightarrow> world" where
  "remove_table table_name w =
     w\<lparr>db := removeAll table_name (db w), db_log := db_log w @ [Removed table_name]\<rparr>"

definition remove_mock_data_from_db :: "string list \<Rightarrow> world \<Rightarrow> world" where
  "remove_mock_data_from_db table_names w =
     (if length table_names > 0 then fold remove_table table_names w else w)"

text \<open>Iterating over and indexing into a JSON value, as Python does it.\<close>

definition py_iter :: "json \<Rightarrow> error + json list" where
  "py_iter j =
     (case j of
        JList xs \<Rightarrow> Inr xs
      | JDict kvs \<Rightarrow> Inr (map (\<lambda>kv. JStr (fst kv)) kvs)
      | JStr s \<Rightarrow> Inr (map (\<lambda>c. JStr [c]) s)
      | _ \<Rightarrow> Inl TypeError)"

definition getitem :: "json \<Rightarrow> string \<Rightarrow> error + json" where
  "getitem d key =
     (case d of
        JDict kvs \<Rightarrow> (case map_of kvs key of None \<Rightarrow> Inl (KeyError key) | Some v \<Rightarrow> Inr v)
      | _ \<Rightarrow> Inl TypeError)"

definition py_format :: "externals \<Rightarrow> json \<Rightarrow> string" where
  "py_format ext v = (case v of JStr s \<Rightarrow> s | _ \<Rightarrow> format_value ext v)"

fun split_path :: "string \<Rightarrow> string \<Rightarrow> path" where
  "split_path acc [] = (if acc = [] then [] else [acc])"
| "split_path acc (c # cs) =
     (if c = CHR ''/'' then (if acc = [] then [] else [acc]) @ split_path [] cs
      else split_path (acc @ [c]) cs)"

definition read_parquet :: "path \<Rightarrow> node \<Rightarrow> error + frame" where
  "read_parquet p t =
     (case read_file p t of
        Inl e \<Rightarrow> Inl e
      | Inr (Parquet df) \<Rightarrow> Inr df
      | Inr _ \<Rightarrow> Inl (ParseError p))"

text \<open>The first loop of \<open>dump_mock_data_in_db\<close>: no table is created in it.\<close>

fun prepare_mock_data ::
  "externals \<Rightarrow> path \<Rightarrow> int \<Rightarrow> json list \<Rightarrow> world \<Rightarrow> world \<times> (error + (string \<times> frame) list)" where
  "prepare_mock_data ext database_dir ts [] w = (w, Inr [])"
| "prepare_mock_data ext database_dir ts (d # ds) w =
     (case getitem d ''table_name'' of
        Inl e \<Rightarrow> (w, Inl e)
      | Inr tn \<Rightarrow>
          (case getitem d ''filename'' of
             Inl e \<Rightarrow> (w, Inl e)
           | Inr (JStr filename) \<Rightarrow>
               (case read_parquet (database_dir @ split_path [] filename) (fs w) of
                  Inl e \<Rightarrow> (w, Inl e)
                | Inr df \<Rightarrow>
                    (case getitem d ''env_variable'' of
                       Inl e \<Rightarrow> (w, Inl e)
                     | Inr (JStr env_variable) \<Rightarrow>
                         (let table_name = py_format ext tn @ ''_'' @ show_int ts;
                              w' = w\<lparr>environ :=
                                      (env_variable,
                                       ''['' @ DET_DB_SCHEMA @ ''].['' @ table_name @ '']'')
                                        # environ w\<rparr>
                          in case prepare_mock_data ext database_dir ts ds w' of
                               (w'', Inl e) \<Rightarrow> (w'', Inl e)
                             | (w'', Inr mock_data) \<Rightarrow> (w'', Inr ((table_name, df) # mock_data)))
                     | Inr _ \<Rightarrow> (w, Inl TypeError)))
           | Inr _ \<Rightarrow> (w, Inl TypeError)))"

text \<open>
  The loop inside the \<^verbatim>\<open>try\<close>: it returns the names appended to \<open>table_names\<close> so far
  and the exception that ended it, if any.
\<close>

fun add_tables ::
  "externals \<Rightarrow> (string \<times> frame) list \<Rightarrow> string list \<Rightarrow> world \<Rightarrow> world \<times> string list \<times> error option" where
  "add_tables ext [] table_names w = (w, table_names, None)"
| "add_tables ext (md # mock_data) table_names w =
     (case add_table ext (fst md) w of
        (w', Inl e) \<Rightarrow> (w', table_names, Some e)
      | (w', Inr u) \<Rightarrow> add_tables ext mock_data (table_names @ [fst md]) w')"

definition dump_mock_data_in_db :: "externals \<Rightarrow> path \<Rightarrow> world \<Rightarrow> world \<times> (error + string list)" where
  "dump_mock_data_in_db ext case_dir w =
     (let database_dir = case_dir @ [INPUTS_FOLDER_NAME, DATABASE_FOLDER_NAME]
      in if \<not> is_dir (fs w) database_dir then (w, Inr [])
         else case json_load (database_dir @ [''_Database.json'']) (fs w) of
                Inl e \<Rightarrow> (w, Inl e)
              | Inr database_json \<Rightarrow>
                  (case py_iter database_json of
                     Inl e \<Rightarrow> (w, Inl e)
                   | Inr ds \<Rightarrow>
                       (case prepare_mock_data ext database_dir (timestamp_unix ext case_dir) ds w of
                          (w1, Inl e) \<Rightarrow> (w1, Inl e)
                        | (w1, Inr mock_data) \<Rightarrow>
                            (case add_tables ext mock_data [] w1 of
                               (w2, table_names, Some e) \<Rightarrow>
                                 (remove_mock_data_from_db table_names w2, Inl e)
                             | (w2, table_names, None) \<Rightarrow> (w2, Inr table_names)))))"

subsection \<open>Output capture and comparison\<close>

definition extensions_to_ignore :: "string list" where
  "extensions_to_ignore = [''.html'']"

fun copy_files :: "path \<Rightarrow> path \<Rightarrow> (path \<times> string) list \<Rightarrow> node \<Rightarrow> node \<times> (error + unit)" where
  "copy_files src dst [] t = (t, Inr ())"
| "copy_files src dst ((rel, f) # rest) t =
     (if suffix f \<notin> set extensions_to_ignore then
        (case mkdir (dst @ rel) t of
           Inl e \<Rightarrow> (t, Inl e)
         | Inr t1 \<Rightarrow>
             (case copy2 (src @ rel @ [f]) (dst @ rel @ [f]) t1 of
                Inl e \<Rightarrow> (t1, Inl e)
              | Inr t2 \<Rightarrow> copy_files src dst rest t2))
      else copy_files src dst rest t)"

definition copy_outputs :: "path \<Rightarrow> path \<Rightarrow> node \<Rightarrow> node \<times> (error + unit)" where
  "copy_outputs src dst t =
     (case rmtree dst t of
        Inl e \<Rightarrow> (t, Inl e)
      | Inr t1 \<Rightarrow>
          (case mkdir dst t1 of
             Inl e \<Rightarrow> (t1, Inl e)
           | Inr t2 \<Rightarrow> copy_files src dst (walk_files src t2) t2))"

fun compare_files :: "path \<Rightarrow> path \<Rightarrow> (path \<times> string) list \<Rightarrow> node \<Rightarrow> node \<times> (error + unit)" where
  "compare_files expected_outputs_base_dir outputs_base_dir [] t = (t, Inr ())"
| "compare_files expected_outputs_base_dir outputs_base_dir ((rel, f) # rest) t =
     (case assert_file (outputs_base_dir @ rel @ [f]) (expected_outputs_base_dir @ rel @ [f]) t of
        Inl e \<Rightarrow>
          (case rmtree outputs_base_dir t of
             Inl e' \<Rightarrow> (t, Inl e')
           | Inr t' \<Rightarrow> (t', Inl e))
      | Inr u \<Rightarrow> compare_files expected_outputs_base_dir outputs_base_dir rest t)"

definition compare_outputs :: "path \<Rightarrow> path \<Rightarrow> node \<Rightarrow> node \<times> (error + unit)" where
  "compare_outputs expected_outputs_base_dir outputs_base_dir t =
     compare_files expected_outputs_base_dir outputs_base_dir
       (walk_files expected_outputs_base_dir t) t"

subsection \<open>The model entry point of the repository\<close>

text \<open>
  \<^verbatim>\<open>src/main.py\<close> writes the frame \<open>[[2, 2], [3, 4]]\<close> to \<^verbatim>\<open>Outputs/df.csv\<close> below the
  working directory. The file is represented by the frame \<^verbatim>\<open>read_csv\<close> gets back from
  it: the index column and the two data columns.
\<close>

definition main_df :: frame where
  "main_df = [(''Unnamed: 0'', [0, 1]), (''0'', [2, 3]), (''1'', [2, 4])]"

definition main :: "world \<Rightarrow> node \<times> error option" where
  "main w =
     (let outputs_dir = cwd w @ [''Outputs'']
      in case mkdir outputs_dir (fs w) of
           Inl e \<Rightarrow> (fs w, Some e)
         | Inr t \<Rightarrow>
             (case write_file (outputs_dir @ [''df.csv'']) (Csv main_df) t of
                Inl e \<Rightarrow> (t, Some e)
              | Inr t' \<Rightarrow> (t', None)))"

subsection \<open>Running the cases\<close>

text \<open>The \<^verbatim>\<open>try\<close> / \<^verbatim>\<open>except\<close> / \<^verbatim>\<open>else\<close> around the model run.\<close>

definition run_model :: "externals \<Rightarrow> path \<Rightarrow> string list \<Rightarrow> world \<Rightarrow> world \<times> (error + unit)" where
  "run_model ext outputs_base_dir table_names w =
     (case main_model ext w of
        (t, Some e) \<Rightarrow>
          (let w1 = remove_mock_data_from_db table_names (w\<lparr>fs := t\<rparr>)
           in if is_dir (fs w1) outputs_base_dir
              then (case rmtree outputs_base_dir (fs w1) of
                      Inl e' \<Rightarrow> (w1, Inl e')
                    | Inr t' \<Rightarrow> (w1\<lparr>fs := t'\<rparr>, Inl e))
              else (w1, Inl e))
      | (t, None) \<Rightarrow> (remove_mock_data_from_db table_names (w\<lparr>fs := t\<rparr>), Inr ()))"

text \<open>The branch on the run type after the model run.\<close>

definition process_outputs :: "string \<Rightarrow> path \<Rightarrow> path \<Rightarrow> node \<Rightarrow> node \<times> (error + unit)" where
  "process_outputs run_type expected_outputs_base_dir outputs_base_dir t =
     (if run_type = ''create'' then copy_outputs outputs_base_dir expected_outputs_base_dir t
      else if run_type = ''update'' then copy_outputs outputs_base_dir expected_outputs_base_dir t
      else if run_type = ''compare'' then compare_outputs expected_outputs_base_dir outputs_base_dir t
      else (t, Inr ()))"

text \<open>One pass of the loop over the cases. Printing is not part of the state.\<close>

definition run_case :: "externals \<Rightarrow> string \<Rightarrow> path \<Rightarrow> world \<Rightarrow> world \<times> (error + unit)" where
  "run_case ext run_type case_dir w =
     (if \<not> is_dir (fs w) case_dir then (w, Inl (FileNotFoundError case_dir))
      else
        let w0 = w\<lparr>cwd := case_dir\<rparr>;
            project_inputs_base_dir = ROOT_DIR @ [INPUTS_FOLDER_NAME];
            case_inputs_base_dir = case_dir @ [INPUTS_FOLDER_NAME];
            expected_outputs_base_dir = case_dir @ [EXPECTED_OUTPUTS_FOLDER];
            outputs_base_dir = case_dir @ [OUTPUTS_FOLDER_NAME]
        in case dump_mock_data_in_db ext case_dir w0 of
             (w1, Inl e) \<Rightarrow> (w1, Inl e)
           | (w1, Inr table_names) \<Rightarrow>
               (case (if run_type = ''create''
                      then copytree project_inputs_base_dir case_inputs_base_dir (fs w1)
                      else Inr (fs w1)) of
                  Inl e \<Rightarrow> (w1, Inl e)
                | Inr t2 \<Rightarrow>
                    (case run_model ext outputs_base_dir table_names (w1\<lparr>fs := t2\<rparr>) of
                       (w3, Inl e) \<Rightarrow> (w3, Inl e)
                     | (w3, Inr u) \<Rightarrow>
                         (case process_outputs run_type expected_outputs_base_dir
                                 outputs_base_dir (fs w3) of
                            (t4, Inl e) \<Rightarrow> (w3\<lparr>fs := t4\<rparr>, Inl e)
                          | (t4, Inr u') \<Rightarrow>
                              (case rmtree outputs_base_dir t4 of
                                 Inl e \<Rightarrow> (w3\<lparr>fs := t4\<rparr>, Inl e)
                               | Inr t5 \<Rightarrow> (w3\<lparr>fs := t5\<rparr>, Inr ()))))))"

fun run_cases :: "externals \<Rightarrow> string \<Rightarrow> path list \<Rightarrow> world \<Rightarrow> world \<times> (error + unit)" where
  "run_cases ext run_type [] w = (w, Inr ())"
| "run_cases ext run_type (case_dir # cases) w =
     (case run_case ext run_type case_dir w of
        (w', Inl e) \<Rightarrow> (w', Inl e)
      | (w', Inr u) \<Rightarrow> run_cases ext run_type cases w')"

definition quoted :: "string \<Rightarrow> string" where
  "quoted s = [CHR 0x27] @ s @ [CHR 0x27]"

fun join :: "string \<Rightarrow> string list \<Rightarrow> string" where
  "join sep [] = []"
| "join sep [x] = x"
| "join sep (x # y # ys) = x @ sep @ join sep (y # ys)"

definition accepted_run_types :: "string list" where
  "accepted_run_types = [''compare'', ''update'', ''create'']"

definition test_snapshots :: "externals \<Rightarrow> string \<Rightarrow> world \<Rightarrow> world \<times> (error + unit)" where
  "test_snapshots ext run_type w =
     (if run_type \<notin> set accepted_run_types
      then (w, Inl (ValueError (''Invalid input '' @ quoted ''run_type'' @ ''='' @ quoted run_type
                                 @ ''. Accepted values: ''
                                 @ join '', '' (map quoted accepted_run_types) @ ''.'')))
      else if run_type = ''create''
      then (case create_new_case_folder (fs w) of
              (t, Inl e) \<Rightarrow> (w\<lparr>fs := t\<rparr>, Inl e)
            | (t, Inr case_dir) \<Rightarrow> run_cases ext run_type [case_dir] (w\<lparr>fs := t\<rparr>))
      else run_cases ext run_type (find_cases (fs w)) w)"

section \<open>Example fixtures\<close>

text \<open>
  A project with two cases, \<open>Case01\<close> and \<open>Case03\<close>. Each holds the expected output of
  the repository's model and a manifest of three mock tables.
\<close>

definition example_manifest :: json where
  "example_manifest = JList
     [JDict [(''table_name'', JStr ''prices''), (''filename'', JStr ''prices.parquet''),
             (''env_variable'', JStr ''PRICES'')],
      JDict [(''table_name'', JStr ''volumes''), (''filename'', JStr ''volumes.parquet''),
             (''env_variable'', JStr ''VOLUMES'')],
      JDict [(''table_name'', JStr ''curves''), (''filename'', JStr ''curves.parquet''),
             (''env_variable'', JStr ''CURVES'')]]"

definition example_case :: node where
  "example_case = Dir
     [(''ExpectedOutputs'', Dir [(''df.csv'', File (Csv main_df))]),
      (''Inputs'', Dir [(''_Database'', Dir
         [(''_Database.json'', File (Json example_manifest)),
          (''prices.parquet'', File (Parquet [(''p'', [1, 2])])),
          (''volumes.parquet'', File (Parquet [(''v'', [3])])),
          (''curves.parquet'', File (Parquet [(''c'', [])]))])])]"

definition example_world :: world where
  "example_world =
     \<lparr>fs = Dir [(''Inputs'', Dir [(''Settings.json'', File (Json (JDict [])))]),
                (''tests'', Dir [(''snapshots'', Dir [(''Cases'',
                    Dir [(''Case01'', example_case), (''Case03'', example_case)])])])],
      cwd = [], environ = [], db = [], db_log = []\<rparr>"

definition example_case_dir :: path where
  "example_case_dir = [''tests'', ''snapshots'', ''Cases'', ''Case01'']"

text \<open>The repository's model, a database that accepts every table, the clock at 1700.\<close>

definition example_externals :: externals where
  "example_externals =
     \<lparr>timestamp_unix = (\<lambda>case_dir. 1700), add_table_fails = (\<lambda>tables name. False),
      main_model = main, format_value = (\<lambda>v. ''?'')\<rparr>"

text \<open>A database that refuses the second of the three tables.\<close>

definition refusing_externals :: externals where
  "refusing_externals =
     example_externals\<lparr>add_table_fails := (\<lambda>tables name. name = ''volumes_1700'')\<rparr>"






definition changed_frame :: frame where
  "changed_frame = [(''Unnamed: 0'', [0, 1]), (''0'', [2, 3]), (''1'', [2, 5])]"

definition csv_tree :: "frame \<Rightarrow> frame \<Rightarrow> node" where
  "csv_tree expected actual = Dir
     [(''ExpectedOutputs'', Dir [(''df.csv'', File (Csv expected))]),
      (''Outputs'', Dir [(''df.csv'', File (Csv actual))])]"

text \<open>The model's output with two entries nothing expects.\<close>

definition extra_tree :: node where
  "extra_tree = Dir
     [(''ExpectedOutputs'', Dir [(''df.csv'', File (Csv main_df))]),
      (''Outputs'', Dir [(''df.csv'', File (Csv main_df)),
                        (''extra.csv'', File (Csv changed_frame)),
                        (''logs'', Dir [(''run.log'', File (Text ''done''))])])]"

text \<open>
  An output tree with two HTML files and a stale expected file, for \<open>copy_outputs\<close>.
\<close>

definition report_tree :: node where
  "report_tree = Dir
     [(''ExpectedOutputs'', Dir [(''old.csv'', File (Csv changed_frame))]),
      (''Outputs'', Dir [(''df.csv'', File (Csv main_df)),
                        (''report.html'', File (Text ''run 42'')),
                        (''plots'', Dir [(''curve.html'', File (Text ''run 42''))]),
                        (''arrays'', Dir [(''a.npz'', File (Npz [(''x'', [1])]))])])]"

definition expected_archive :: archive where
  "expected_archive = [(''x'', [1, 2]), (''y'', [3])]"

definition close_archive :: archive where
  "close_archive = [(''y'', [3 + 1 / 10 ^ 8]), (''x'', [1, 2])]"

definition renamed_archive :: archive where
  "renamed_archive = [(''x'', [100, 2]), (''z'', [3])]"

definition npz_tree :: "archive \<Rightarrow> node" where
  "npz_tree actual = Dir
     [(''ExpectedOutputs'', Dir [(''arrays.npz'', File (Npz expected_archive))]),
      (''Outputs'', Dir [(''arrays.npz'', File (Npz actual))])]"

definition json_tree :: "json \<Rightarrow> node" where
  "json_tree actual = Dir
     [(''ExpectedOutputs'', Dir [(''doc.json'', File (Json (JDict [(''a'', JInt 1)])))]),
      (''Outputs'', Dir [(''doc.json'', File (Json actual))])]"

section \<open>Mock data staging and removal\<close>

lemma map_of_replace:
  "map_of (map (\<lambda>e. if fst e = x then (x, g (snd e)) else e) es) x = map_option g (map_of es x)"
  by (induction es) auto

lemma map_of_without: "map_of (filter (\<lambda>e. fst e \<noteq> x) es) x = None"
  by (induction es) auto

lemma lookup_delete: "p \<noteq> [] \<Longrightarrow> lookup (delete p t) p = None"
proof (induction p t rule: delete.induct)
  case (4 x y q es)
  have eq: "map_of (map (\<lambda>e. if fst e = x then (x, delete (y # q) (snd e)) else e) es) x
          = map_option (delete (y # q)) (map_of es x)"
    by (rule map_of_replace)
  show ?case
  proof (cases "map_of es x")
    case None
    with eq show ?thesis by simp
  next
    case (Some n)
    then have "(x, n) \<in> set es" by (rule map_of_SomeD)
    with 4 have "lookup (delete (y # q) n) (y # q) = None" by fastforce
    with eq Some show ?thesis by simp
  qed
qed (simp_all add: map_of_without)

lemma rmtree_gone: "p \<noteq> [] \<Longrightarrow> rmtree p t = Inr t' \<Longrightarrow> lookup t' p = None"
  by (auto simp: rmtree_def lookup_delete split: option.splits node.splits)

lemma rmtree_dir: "is_dir t p \<Longrightarrow> rmtree p t = Inr (delete p t)"
  by (auto simp: rmtree_def is_dir_def split: option.splits node.splits)

lemma lookup_append:
  "lookup t (p @ q) = (case lookup t p of None \<Rightarrow> None | Some n \<Rightarrow> lookup n q)"
proof (induction p arbitrary: t)
  case Nil show ?case by simp
next
  case (Cons x p)
  show ?case by (cases t) (simp_all add: Cons split: option.splits)
qed

lemma fold_remove_table_log:
  "db_log (fold remove_table ts w) = db_log w @ map Removed ts"
  by (induction ts arbitrary: w) (simp_all add: remove_table_def)

lemma filter_removeAll:
  "filter (\<lambda>t. t \<notin> set ts) (removeAll a xs) = filter (\<lambda>t. t \<notin> set (a # ts)) xs"
  by (induction xs) auto

lemma fold_remove_table_db:
  "db (fold remove_table ts w) = filter (\<lambda>t. t \<notin> set ts) (db w)"
proof (induction ts arbitrary: w)
  case Nil
  show ?case by simp
next
  case (Cons a ts)
  have "db (fold remove_table (a # ts) w) = filter (\<lambda>t. t \<notin> set ts) (removeAll a (db w))"
    by (simp add: Cons.IH) (simp add: remove_table_def)
  then show ?case by (simp only: filter_removeAll)
qed

lemma fold_remove_table_rest:
  "fs (fold remove_table ts w) = fs w" "cwd (fold remove_table ts w) = cwd w"
  "environ (fold remove_table ts w) = environ w"
  by (induction ts arbitrary: w) (simp_all add: remove_table_def)

lemma remove_mock_log: "db_log (remove_mock_data_from_db ts w) = db_log w @ map Removed ts"
  by (simp add: remove_mock_data_from_db_def fold_remove_table_log)

lemma remove_mock_db: "db (remove_mock_data_from_db ts w) = filter (\<lambda>t. t \<notin> set ts) (db w)"
  by (simp add: remove_mock_data_from_db_def fold_remove_table_db)

lemma remove_mock_fs: "fs (remove_mock_data_from_db ts w) = fs w"
  by (simp add: remove_mock_data_from_db_def fold_remove_table_rest)

lemma prepare_mock_data_db:
  "prepare_mock_data ext d ts ds w = (w', r) \<Longrightarrow> db w' = db w \<and> db_log w' = db_log w \<and> fs w' = fs w"
proof (induction ds arbitrary: w w' r)
  case Nil then show ?case by simp
next
  case (Cons a ds)
  then show ?case
    by (auto simp: Let_def split: sum.splits json.splits prod.splits)
qed

lemma add_tables_log:
  "add_tables ext mds names w = (w', names', r) \<Longrightarrow>
     \<exists>new. names' = names @ new \<and> db_log w' = db_log w @ map Added new \<and> fs w' = fs w
         \<and> set (db w') \<subseteq> set (db w) \<union> set new"
proof (induction mds arbitrary: names w)
  case Nil then show ?case by simp
next
  case (Cons md mds)
  show ?case
  proof (cases "add_table_fails ext (db w) (fst md)")
    case True
    with Cons.prems show ?thesis by (simp add: add_table_def)
  next
    case False
    let ?w1 = "w\<lparr>db := List.insert (fst md) (db w), db_log := db_log w @ [Added (fst md)]\<rparr>"
    from False Cons.prems have "add_tables ext mds (names @ [fst md]) ?w1 = (w', names', r)"
      by (simp add: add_table_def)
    from Cons.IH[OF this] obtain new where
      "names' = (names @ [fst md]) @ new" "db_log w' = db_log ?w1 @ map Added new" "fs w' = fs ?w1"
      "set (db w') \<subseteq> set (db ?w1) \<union> set new" by blast
    then show ?thesis by (intro exI[of _ "fst md # new"]) auto
  qed
qed

lemma dump_log:
  assumes "dump_mock_data_in_db ext case_dir w = (w', r)"
  shows "fs w' = fs w \<and> (case r of
           Inl e \<Rightarrow> \<exists>ts. db_log w' = db_log w @ map Added ts @ map Removed ts
                       \<and> set ts \<inter> set (db w') = {} \<and> set (db w') \<subseteq> set (db w)
         | Inr table_names \<Rightarrow> db_log w' = db_log w @ map Added table_names
                       \<and> set (db w') \<subseteq> set (db w) \<union> set table_names)"
proof (cases "is_dir (fs w) (case_dir @ [INPUTS_FOLDER_NAME, DATABASE_FOLDER_NAME])")
  case False
  with assms show ?thesis by (auto simp: dump_mock_data_in_db_def)
next
  case True
  note dir = this
  show ?thesis
  proof (cases "json_load (case_dir @ [INPUTS_FOLDER_NAME, DATABASE_FOLDER_NAME] @ [''_Database.json'']) (fs w)")
    case (Inl e) with dir assms show ?thesis by (auto simp: dump_mock_data_in_db_def)
  next
    case (Inr dj)
    note jl = this
    show ?thesis
    proof (cases "py_iter dj")
      case (Inl e) with dir jl assms show ?thesis by (auto simp: dump_mock_data_in_db_def)
    next
      case (Inr ds)
      note it = this
      obtain w1 r1 where p: "prepare_mock_data ext (case_dir @ [INPUTS_FOLDER_NAME, DATABASE_FOLDER_NAME]) (timestamp_unix ext case_dir) ds w = (w1, r1)"
        by (cases "prepare_mock_data ext (case_dir @ [INPUTS_FOLDER_NAME, DATABASE_FOLDER_NAME]) (timestamp_unix ext case_dir) ds w") auto
      from prepare_mock_data_db[OF p] have w1: "db w1 = db w" "db_log w1 = db_log w" "fs w1 = fs w" by auto
      show ?thesis
      proof (cases r1)
        case (Inl e) with dir jl it p w1 assms show ?thesis by (auto simp: dump_mock_data_in_db_def)
      next
        case (Inr mock_data)
        note md = this
        obtain w2 names err where a: "add_tables ext mock_data [] w1 = (w2, names, err)"
          by (cases "add_tables ext mock_data [] w1") auto
        from add_tables_log[OF a] have w2: "db_log w2 = db_log w1 @ map Added names" "fs w2 = fs w1"
          "set (db w2) \<subseteq> set (db w1) \<union> set names" by auto
        show ?thesis
        proof (cases err)
          case None
          with dir jl it p md a assms have "w' = w2" "r = Inr names"
            by (auto simp: dump_mock_data_in_db_def)
          with w1 w2 show ?thesis by auto
        next
          case (Some e)
          with dir jl it p md a assms have "w' = remove_mock_data_from_db names w2" "r = Inl e"
            by (auto simp: dump_mock_data_in_db_def)
          with w1 w2 show ?thesis
            by (auto simp: remove_mock_log remove_mock_db remove_mock_fs intro!: exI[of _ names])
        qed
      qed
    qed
  qed
qed

text \<open>
  Claim C1. Staging is all or nothing. Whenever \<open>dump_mock_data_in_db\<close> raises, the calls
  the database served during it are the insertions of some tables \<open>ts\<close> followed by the
  removal of exactly those tables, in the same order; none of them is present afterwards,
  and the database holds no table it did not hold before.
\<close>

theorem dump_mock_data_rollback:
  assumes "dump_mock_data_in_db ext case_dir w = (w', Inl e)"
  shows "\<exists>ts. db_log w' = db_log w @ map Added ts @ map Removed ts
            \<and> set ts \<inter> set (db w') = {} \<and> set (db w') \<subseteq> set (db w)"
  using dump_log[OF assms] by simp

text \<open>
  The second of three insertions is refused: the first table is inserted and removed
  again, the refusal propagates, and the database is empty.
\<close>

theorem dump_mock_data_rollback_witness:
  "\<exists>w'. dump_mock_data_in_db refusing_externals example_case_dir example_world
           = (w', Inl (DatabaseError ''volumes_1700''))
      \<and> db_log w' = [Added ''prices_1700'', Removed ''prices_1700'']
      \<and> db w' = []
      \<and> (\<exists>ts. db_log w' = db_log example_world @ map Added ts @ map Removed ts
              \<and> set ts \<inter> set (db w') = {} \<and> set (db w') \<subseteq> set (db example_world))"
proof -
  let ?w' = "example_world
     \<lparr>environ := [(''CURVES'', ''[SNAP].[curves_1700]''), (''VOLUMES'', ''[SNAP].[volumes_1700]''),
                  (''PRICES'', ''[SNAP].[prices_1700]'')],
      db_log := [Added ''prices_1700'', Removed ''prices_1700'']\<rparr>"
  have run: "dump_mock_data_in_db refusing_externals example_case_dir example_world
               = (?w', Inl (DatabaseError ''volumes_1700''))"
    by code_simp
  have log: "db_log ?w' = [Added ''prices_1700'', Removed ''prices_1700'']" by simp
  have tables: "db ?w' = []" by (simp add: example_world_def)
  from dump_mock_data_rollback[OF run] run log tables show ?thesis by blast
qed

section \<open>Removal of the mock tables after a run\<close>

lemma run_model_log:
  assumes "run_model ext out ts w = (w', r)"
  shows "db_log w' = db_log w @ map Removed ts \<and> db w' = filter (\<lambda>t. t \<notin> set ts) (db w)"
proof (cases "main_model ext w")
  case (Pair t err)
  show ?thesis
  proof (cases err)
    case None
    with Pair assms show ?thesis
      by (auto simp: run_model_def remove_mock_log remove_mock_db)
  next
    case (Some e)
    with Pair assms show ?thesis
      by (auto simp: run_model_def Let_def remove_mock_log remove_mock_db split: if_splits sum.splits)
  qed
qed

lemma dump_no_database_dir:
  "\<not> is_dir (fs w) (case_dir @ [INPUTS_FOLDER_NAME, DATABASE_FOLDER_NAME]) \<Longrightarrow>
     dump_mock_data_in_db ext case_dir w = (w, Inr [])"
  by (simp add: dump_mock_data_in_db_def)


subsection \<open>The case folder of a create run is new\<close>

text \<open>
  The name given to a new case parses back to its number, which no existing case has; so
  the folder \<open>create_new_case_folder\<close> returns did not exist before and is empty.
\<close>

lemma digit_facts:
  "\<forall>c\<in>set ''0123456789''. \<not> is_space c \<and> c \<noteq> CHR ''-'' \<and> c \<noteq> CHR ''+'' \<and> c \<noteq> CHR ''_''"
  by code_simp

lemma digit_val_digit_char_all: "\<forall>d\<in>set [0..<10]. digit_val (digit_char d) = int d"
  by code_simp

lemma digit_val_digit_char: "d < 10 \<Longrightarrow> digit_val (digit_char d) = int d"
  using digit_val_digit_char_all by simp

lemma is_digit_digit_char: "d < 10 \<Longrightarrow> is_digit (digit_char d)"
  unfolding is_digit_def digit_char_def by (rule nth_mem) simp

lemma show_nat_digits: "show_nat n \<noteq> [] \<and> list_all is_digit (show_nat n)"
proof (induction n rule: show_nat.induct)
  case (1 n)
  show ?case
  proof (cases "n < 10")
    case True
    then show ?thesis by (subst (1 2) show_nat.simps) (simp add: is_digit_digit_char)
  next
    case False
    with 1 show ?thesis by (subst (1 2) show_nat.simps) (simp add: is_digit_digit_char)
  qed
qed

lemma show_nat_value:
  "foldl (\<lambda>a c. 10 * a + digit_val c) acc (show_nat n) = acc * 10 ^ length (show_nat n) + int n"
proof (induction n arbitrary: acc rule: show_nat.induct)
  case (1 n)
  show ?case
  proof (cases "n < 10")
    case True
    then show ?thesis by (subst (1 2) show_nat.simps) (simp add: digit_val_digit_char)
  next
    case False
    have "int n = 10 * int (n div 10) + int (n mod 10)" by (simp add: zdiv_int zmod_int)
    with False 1 show ?thesis
      by (subst (1 2) show_nat.simps) (simp add: digit_val_digit_char algebra_simps)
  qed
qed

lemma is_digit_plain:
  assumes "is_digit c"
  shows "\<not> is_space c" "c \<noteq> CHR ''-''" "c \<noteq> CHR ''+''" "c \<noteq> CHR ''_''"
  using assms digit_facts unfolding is_digit_def by blast+

lemma py_int_digits:
  assumes "s \<noteq> []" "list_all is_digit s"
  shows "py_int s = Inr (foldl (\<lambda>a c. 10 * a + digit_val c) 0 s)"
proof -
  from assms(2) have all: "\<And>c. c \<in> set s \<Longrightarrow> is_digit c"
    by (simp add: list_all_iff)
  from assms(1) have "hd s \<in> set s" "last s \<in> set s" by simp_all
  with all have hd: "is_digit (hd s)" and last: "is_digit (last s)" by blast+
  have keep_all: "dropWhile is_space xs = xs" if "xs \<noteq> []" "\<not> is_space (hd xs)" for xs
    using that by (cases xs) simp_all
  have d1: "dropWhile is_space s = s"
    using assms(1) is_digit_plain(1)[OF hd] by (rule keep_all)
  have "hd (rev s) = last s" using assms(1) by (simp add: hd_rev)
  with is_digit_plain(1)[OF last] assms(1) have "dropWhile is_space (rev s) = rev s"
    by (intro keep_all) simp_all
  with d1 have strip: "strip s = s" by (simp add: strip_def)
  have pairs: "list_all (\<lambda>cc. \<not> (fst cc = CHR ''_'' \<and> snd cc = CHR ''_'')) (zip s (tl s))"
    unfolding list_all_iff
  proof
    fix cc assume "cc \<in> set (zip s (tl s))"
    then have "fst cc \<in> set s" by (metis prod.collapse set_zip_leftD)
    then have "fst cc \<noteq> CHR ''_''" using all is_digit_plain(4) by blast
    then show "\<not> (fst cc = CHR ''_'' \<and> snd cc = CHR ''_'')" by simp
  qed
  have every: "list_all (\<lambda>c. is_digit c \<or> c = CHR ''_'') s"
    using all by (simp add: list_all_iff)
  have ok: "digits_ok s"
    unfolding digits_ok_def using assms(1) hd last every pairs by blast
  have keep: "filter is_digit s = s" using all by (simp add: filter_id_conv)
  have sign: "\<not> (s \<noteq> [] \<and> hd s = CHR ''-'')" "\<not> (s \<noteq> [] \<and> (hd s = CHR ''-'' \<or> hd s = CHR ''+''))"
    using is_digit_plain(2,3)[OF hd] by simp_all
  show ?thesis
    unfolding py_int_def Let_def strip if_not_P[OF sign(1)] if_not_P[OF sign(2)] if_P[OF ok] keep
    by simp
qed

lemma py_int_format_02d: "0 \<le> n \<Longrightarrow> py_int (format_02d n) = Inr n"
proof -
  assume n: "0 \<le> n"
  have sn: "show_int n = show_nat (nat n)" using n by (simp add: show_int_def)
  note d = show_nat_digits[of "nat n"]
  have zero: "is_digit (CHR ''0'')" "digit_val (CHR ''0'') = 0"
    by (simp_all add: is_digit_def digit_val_def)
  show ?thesis
  proof (cases "n < 10")
    case True
    with n have f: "format_02d n = CHR ''0'' # show_nat (nat n)" by (simp add: format_02d_def sn)
    have "py_int (CHR ''0'' # show_nat (nat n))
            = Inr (foldl (\<lambda>a c. 10 * a + digit_val c) 0 (CHR ''0'' # show_nat (nat n)))"
      using d zero by (intro py_int_digits) simp_all
    with f n show ?thesis by (simp add: zero show_nat_value)
  next
    case False
    with n have f: "format_02d n = show_nat (nat n)" by (simp add: format_02d_def sn)
    have "py_int (show_nat (nat n)) = Inr (foldl (\<lambda>a c. 10 * a + digit_val c) 0 (show_nat (nat n)))"
      using d by (intro py_int_digits) simp_all
    with f n show ?thesis by (simp add: show_nat_value)
  qed
qed

lemma map_err_Inr: "map_err f xs = Inr ys \<Longrightarrow> x \<in> set xs \<Longrightarrow> \<exists>y\<in>set ys. f x = Inr y"
proof (induction xs arbitrary: ys)
  case Nil then show ?case by simp
next
  case (Cons a xs)
  then show ?case by (auto split: sum.splits)
qed

lemma new_case_number_unused:
  "new_case_number ns = Inr n \<Longrightarrow> 0 < n \<and> n \<notin> set ns"
proof -
  assume r: "new_case_number ns = Inr n"
  define m where "m = (if length ns > 0 then Max (set ns) else 0)"
  define candidates where "candidates = filter (\<lambda>c. c \<notin> set ns) [1..m + 1]"
  from r have ne: "candidates \<noteq> []" and n: "n = Min (set candidates)"
    by (auto simp: new_case_number_def Let_def m_def candidates_def split: if_splits)
  from ne have "Min (set candidates) \<in> set candidates" by (intro Min_in) simp_all
  with n show ?thesis by (auto simp: candidates_def)
qed

lemma map_of_set_entry:
  "map_of (map (\<lambda>e. if fst e = x then (x, n) else e) es) x = (case map_of es x of None \<Rightarrow> None | Some m \<Rightarrow> Some n)"
  by (induction es) auto

lemma mkdirs_new:
  "mkdirs p t = Some t' \<Longrightarrow> lookup t p = None \<Longrightarrow> lookup t' p = Some (Dir [])"
proof (induction p arbitrary: t t')
  case Nil
  then show ?case by simp
next
  case (Cons x q)
  from Cons.prems obtain es where t: "t = Dir es" by (cases t) simp_all
  show ?case
  proof (cases "map_of es x")
    case None
    with Cons.prems t obtain n where n: "mkdirs q (Dir []) = Some n" and t': "t' = Dir (es @ [(x, n)])"
      by (auto split: option.splits)
    have "lookup n q = Some (Dir [])"
    proof (cases q)
      case Nil with n show ?thesis by simp
    next
      case (Cons y r)
      then have "lookup (Dir []) q = None" by simp
      from Cons.IH[OF n this] show ?thesis .
    qed
    with None t' show ?thesis by (simp add: map_add_def)
  next
    case (Some m)
    with Cons.prems t obtain m' where m': "mkdirs q m = Some m'"
      and t': "t' = Dir (map (\<lambda>e. if fst e = x then (x, m') else e) es)"
      by (auto split: option.splits)
    from Cons.prems t Some have "lookup m q = None" by simp
    from Cons.IH[OF m' this] Some t' show ?thesis by (simp add: map_of_set_entry)
  qed
qed

lemma mkdirs_file: "lookup t p = Some (File c) \<Longrightarrow> mkdirs p t = None"
proof (induction p arbitrary: t)
  case Nil then show ?case by simp
next
  case (Cons x q)
  then show ?case by (cases t) (auto split: option.splits)
qed

lemma find_cases_member:
  assumes "lookup t CASES_DIR = Some (Dir es)" "map_of es name = Some (Dir d)" "take 4 name = ''Case''"
  shows "CASES_DIR @ [name] \<in> set (find_cases t)"
proof -
  let ?keep = "\<lambda>e. (case snd e of Dir d \<Rightarrow> True | File c \<Rightarrow> False) \<and> take 4 (fst e) = ''Case''"
  from assms(2) have "(name, Dir d) \<in> set es" by (rule map_of_SomeD)
  moreover have "?keep (name, Dir d)" using assms(3) by simp
  ultimately have "(name, Dir d) \<in> set (filter ?keep es)" by simp
  then have "fst (name, Dir d) \<in> fst ` set (filter ?keep es)" by (rule imageI)
  then have "name \<in> set (sort (map fst (filter ?keep es)))" by simp
  then have "CASES_DIR @ [name] \<in> (\<lambda>name. CASES_DIR @ [name]) ` set (sort (map fst (filter ?keep es)))"
    by (rule imageI)
  then show ?thesis unfolding find_cases_def assms(1) by simp
qed

lemma create_new_case_folder_fresh:
  assumes "create_new_case_folder t = (t', Inr case_dir)"
  shows "lookup t' case_dir = Some (Dir [])"
proof -
  obtain ns where ns: "map_err (\<lambda>c. py_int (drop 4 (last c))) (find_cases t) = Inr ns"
    using assms by (cases "map_err (\<lambda>c. py_int (drop 4 (last c))) (find_cases t)")
      (simp_all add: create_new_case_folder_def Let_def)
  obtain n where n: "new_case_number ns = Inr n"
    using assms ns by (cases "new_case_number ns") (simp_all add: create_new_case_folder_def Let_def)
  define name where "name = ''Case'' @ format_02d n"
  have name4: "take 4 name = ''Case''" "drop 4 name = format_02d n" by (simp_all add: name_def)
  note res = assms[unfolded create_new_case_folder_def Let_def ns sum.case n, folded name_def]
  from res have cd: "case_dir = CASES_DIR @ [name]" and mk: "mkdirs (CASES_DIR @ [name]) t = Some t'"
    by (auto simp: mkdir_def split: sum.splits option.splits node.splits)
  from new_case_number_unused[OF n] have pos: "0 < n" and unused: "n \<notin> set ns" by simp_all
  have absent: "lookup t (CASES_DIR @ [name]) = None"
  proof (cases "lookup t (CASES_DIR @ [name])")
    case None then show ?thesis .
  next
    case (Some node)
    show ?thesis
    proof (cases node)
      case (File c)
      with Some have "mkdirs (CASES_DIR @ [name]) t = None" by (intro mkdirs_file) simp
      with mk show ?thesis by simp
    next
      case (Dir d)
      with Some have l: "(case lookup t CASES_DIR of None \<Rightarrow> None | Some n' \<Rightarrow> lookup n' [name])
                           = Some (Dir d)"
        by (simp only: lookup_append)
      then obtain c where c: "lookup t CASES_DIR = Some c" by (cases "lookup t CASES_DIR") simp_all
      from l c have l': "lookup c [name] = Some (Dir d)" by simp
      then obtain es where es: "c = Dir es" by (cases c) simp_all
      from l' es have m: "map_of es name = Some (Dir d)"
        by (cases "map_of es name") simp_all
      from c es have "lookup t CASES_DIR = Some (Dir es)" by simp
      from find_cases_member[OF this m name4(1)]
      have "CASES_DIR @ [name] \<in> set (find_cases t)" .
      from map_err_Inr[OF ns this] obtain y where y: "y \<in> set ns" "py_int (drop 4 (last (CASES_DIR @ [name]))) = Inr y"
        by blast
      from y(2) have "py_int (format_02d n) = Inr y" by (simp add: name4(2))
      moreover from pos have "py_int (format_02d n) = Inr n" by (intro py_int_format_02d) simp
      ultimately have "y = n" by simp
      with y(1) unused show ?thesis by simp
    qed
  qed
  from mkdirs_new[OF mk absent] cd show ?thesis by simp
qed

lemma create_mode_no_database_dir:
  assumes "create_new_case_folder t = (t', Inr case_dir)"
  shows "\<not> is_dir t' (case_dir @ [INPUTS_FOLDER_NAME, DATABASE_FOLDER_NAME])"
  using create_new_case_folder_fresh[OF assms]
  by (simp add: is_dir_def lookup_append)

lemma run_case_log:
  assumes fresh: "run_type = ''create'' \<longrightarrow>
                    \<not> is_dir (fs w) (case_dir @ [INPUTS_FOLDER_NAME, DATABASE_FOLDER_NAME])"
    and run: "run_case ext run_type case_dir w = (w', r)"
  shows "\<exists>ts. db_log w' = db_log w @ map Added ts @ map Removed ts \<and> set ts \<inter> set (db w') = {}"
proof (cases "is_dir (fs w) case_dir")
  case False
  with run have "w' = w" by (simp add: run_case_def)
  then show ?thesis by (intro exI[of _ "[]"]) simp
next
  case True
  let ?w0 = "w\<lparr>cwd := case_dir\<rparr>"
  obtain w1 r1 where d: "dump_mock_data_in_db ext case_dir ?w0 = (w1, r1)"
    by (cases "dump_mock_data_in_db ext case_dir ?w0") auto
  note dl = dump_log[OF d]
  show ?thesis
  proof (cases r1)
    case (Inl e)
    with True d run have "w' = w1" by (simp add: run_case_def Let_def)
    with dl Inl show ?thesis by auto
  next
    case (Inr names)
    with dl have log1: "db_log w1 = db_log w @ map Added names" by simp
    let ?copy = "if run_type = ''create''
                 then copytree (ROOT_DIR @ [INPUTS_FOLDER_NAME]) (case_dir @ [INPUTS_FOLDER_NAME]) (fs w1)
                 else Inr (fs w1)"
    show ?thesis
    proof (cases ?copy)
      case (Inl e)
      then have c: "run_type = ''create''" by (auto split: if_splits)
      with fresh have "dump_mock_data_in_db ext case_dir ?w0 = (?w0, Inr [])"
        by (intro dump_no_database_dir) simp
      with d Inr have "names = []" "w1 = ?w0" by auto
      moreover from True d Inr Inl run have "w' = w1" by (simp add: run_case_def Let_def)
      ultimately show ?thesis by (intro exI[of _ "[]"]) simp
    next
      case (Inr t2)
      note cp = this
      obtain w3 r3 where m: "run_model ext (case_dir @ [OUTPUTS_FOLDER_NAME]) names (w1\<lparr>fs := t2\<rparr>) = (w3, r3)"
        by (cases "run_model ext (case_dir @ [OUTPUTS_FOLDER_NAME]) names (w1\<lparr>fs := t2\<rparr>)") auto
      from run_model_log[OF m] have log3: "db_log w3 = db_log w1 @ map Removed names"
        and db3: "db w3 = filter (\<lambda>t. t \<notin> set names) (db w1)" by auto
      from True d \<open>r1 = Inr names\<close> cp m run
      have "db_log w' = db_log w3 \<and> db w' = db w3"
        by (auto simp: run_case_def Let_def split: sum.splits prod.splits)
      with log1 log3 db3 show ?thesis by (intro exI[of _ names]) auto
    qed
  qed
qed




text \<open>A create run as a whole: its case folder is new, so the assumption above holds.\<close>

lemma create_mode_tables_removed:
  assumes "test_snapshots ext ''create'' w = (w', r)"
  shows "\<exists>ts. db_log w' = db_log w @ map Added ts @ map Removed ts \<and> set ts \<inter> set (db w') = {}"
proof (cases "create_new_case_folder (fs w)")
  case (Pair t rc)
  show ?thesis
  proof (cases rc)
    case (Inl e)
    with Pair assms have "w' = w\<lparr>fs := t\<rparr>"
      by (simp add: test_snapshots_def accepted_run_types_def)
    then show ?thesis by (intro exI[of _ "[]"]) simp
  next
    case (Inr case_dir)
    with Pair have c: "create_new_case_folder (fs w) = (t, Inr case_dir)" by simp
    obtain w1 r1 where rc: "run_case ext ''create'' case_dir (w\<lparr>fs := t\<rparr>) = (w1, r1)"
      by (cases "run_case ext ''create'' case_dir (w\<lparr>fs := t\<rparr>)") auto
    from c rc assms have "w' = w1"
      by (simp add: test_snapshots_def accepted_run_types_def split: sum.splits)
    moreover have "''create'' = ''create'' \<longrightarrow>
        \<not> is_dir (fs (w\<lparr>fs := t\<rparr>)) (case_dir @ [INPUTS_FOLDER_NAME, DATABASE_FOLDER_NAME])"
      using create_mode_no_database_dir[OF c] by simp
    from run_case_log[OF this rc]
    have "\<exists>ts. db_log w1 = db_log w @ map Added ts @ map Removed ts \<and> set ts \<inter> set (db w1) = {}"
      by simp
    ultimately show ?thesis by simp
  qed
qed



section \<open>Failure of the model run\<close>



section \<open>Format-specific equality: properties\<close>






lemma allclose_absolute:
  "assert_allclose a d RELATIVE_TOLERANCE ABSOLUTE_TOLERANCE =
     (if length a = length d \<and> (\<forall>i<length a. \<bar>a ! i - d ! i\<bar> \<le> 1 / 10 ^ 8) then Inr () else Inl AssertionError)"
  by (auto simp: assert_allclose_def RELATIVE_TOLERANCE_def ABSOLUTE_TOLERANCE_def list_all2_conv_all_nth)

lemma compare_members_result:
  fixes data expected_data :: archive
  defines "tol \<equiv> \<lambda>name. \<exists>a d. map_of data name = Some a \<and> map_of expected_data name = Some d \<and>
                       length a = length d \<and> (\<forall>i<length a. \<bar>a ! i - d ! i\<bar> \<le> 1 / 10 ^ 8)"
  assumes "set names \<subseteq> fst ` set data" "set names \<subseteq> fst ` set expected_data"
  shows "compare_members data expected_data names =
     (if \<forall>name\<in>set names. tol name
      then (names, Inr ())
      else (takeWhile tol names @ [hd (dropWhile tol names)], Inl AssertionError))"
  using assms(2,3)
proof (induction names)
  case Nil
  show ?case by simp
next
  case (Cons name names)
  from Cons.prems obtain a d where a: "map_of data name = Some a" and d: "map_of expected_data name = Some d"
    by (metis list.set_intros(1) subsetD weak_map_of_SomeI map_of_eq_None_iff not_Some_eq)
  have mc: "tol name
        = (length a = length d \<and> (\<forall>i<length a. \<bar>a ! i - d ! i\<bar> \<le> 1 / 10 ^ 8))"
    by (simp add: tol_def a d)
  from Cons have IH: "compare_members data expected_data names =
     (if \<forall>name\<in>set names. tol name
      then (names, Inr ())
      else (takeWhile tol names @ [hd (dropWhile tol names)], Inl AssertionError))"
    by simp
  show ?case
  proof (cases "tol name")
    case True
    with mc have "assert_allclose a d RELATIVE_TOLERANCE ABSOLUTE_TOLERANCE = Inr ()"
      by (simp add: allclose_absolute)
    with a d True IH show ?thesis by simp
  next
    case False
    with mc have "assert_allclose a d RELATIVE_TOLERANCE ABSOLUTE_TOLERANCE = Inl AssertionError"
      by (simp add: allclose_absolute)
    with a d False show ?thesis by simp
  qed
qed

text \<open>
  Claim C7. When the member names of the two archives differ as sets, \<open>assert_npz\<close>
  raises the key error and has compared no member. When they agree, every member of the
  expected archive is compared with its namesake: the check passes, having compared them
  all, exactly when each pair has equal length and differs elementwise by at most
  \<open>1 / 10 ^ 8\<close> in absolute value; otherwise it raises an assertion error.
\<close>

theorem assert_npz_keys_first:
  assumes "np_load output_file_dir t = Inr data"
    and "np_load expected_output_file_dir t = Inr expected_data"
  shows "assert_npz output_file_dir expected_output_file_dir t =
     (if set (map fst data) \<noteq> set (map fst expected_data)
      then ([], Inl (KeyError ''The .npz archives have different keys.''))
      else if \<forall>name\<in>set (map fst expected_data).
                 \<exists>a d. map_of data name = Some a \<and> map_of expected_data name = Some d \<and>
                       length a = length d \<and> (\<forall>i<length a. \<bar>a ! i - d ! i\<bar> \<le> 1 / 10 ^ 8)
      then (map fst expected_data, Inr ())
      else (fst (assert_npz output_file_dir expected_output_file_dir t), Inl AssertionError))"
proof (cases "set (map fst data) = set (map fst expected_data)")
  case False
  with assms show ?thesis by (simp add: assert_npz_def assert_npz_archives_def)
next
  case True
  then have keys: "\<not> set (map fst data) \<noteq> set (map fst expected_data)" by simp
  from True have "set (map fst expected_data) \<subseteq> fst ` set data"
    "set (map fst expected_data) \<subseteq> fst ` set expected_data"
    by auto
  note cm = compare_members_result[OF this]
  have res: "assert_npz output_file_dir expected_output_file_dir t
               = compare_members data expected_data (map fst expected_data)"
    using True assms by (simp add: assert_npz_def assert_npz_archives_def)
  show ?thesis
  proof (cases "\<forall>name\<in>set (map fst expected_data).
                 \<exists>a d. map_of data name = Some a \<and> map_of expected_data name = Some d \<and>
                       length a = length d \<and> (\<forall>i<length a. \<bar>a ! i - d ! i\<bar> \<le> 1 / 10 ^ 8)")
    case True
    have r: "assert_npz output_file_dir expected_output_file_dir t = (map fst expected_data, Inr ())"
      unfolding res by (rule cm[unfolded if_P[OF True]])
    show ?thesis unfolding if_not_P[OF keys] if_P[OF True] by (rule r)
  next
    case False
    have "snd (compare_members data expected_data (map fst expected_data)) = Inl AssertionError"
      unfolding cm[unfolded if_not_P[OF False]] by simp
    then have r: "snd (assert_npz output_file_dir expected_output_file_dir t) = Inl AssertionError"
      by (simp add: res)
    show ?thesis unfolding if_not_P[OF keys] if_not_P[OF False]
      using r by (metis prod.collapse)
  qed
qed

text \<open>
  An archive with a renamed member raises the key error with nothing compared, although
  one of its shared members is far off; an archive with the same names in another order
  and one value off by \<open>1 / 10 ^ 8\<close> passes.
\<close>

theorem assert_npz_keys_first_witness:
  "np_load [''Outputs'', ''arrays.npz''] (npz_tree renamed_archive) = Inr renamed_archive
   \<and> np_load [''ExpectedOutputs'', ''arrays.npz''] (npz_tree renamed_archive) = Inr expected_archive
   \<and> set (map fst renamed_archive) \<noteq> set (map fst expected_archive)
   \<and> assert_npz [''Outputs'', ''arrays.npz''] [''ExpectedOutputs'', ''arrays.npz''] (npz_tree renamed_archive)
        = ([], Inl (KeyError ''The .npz archives have different keys.''))
   \<and> assert_npz [''Outputs'', ''arrays.npz''] [''ExpectedOutputs'', ''arrays.npz''] (npz_tree close_archive)
        = ([''x'', ''y''], Inr ())"
proof -
  have a1: "np_load [''Outputs'', ''arrays.npz''] (npz_tree renamed_archive) = Inr renamed_archive"
    by (simp add: np_load_def read_file_def npz_tree_def)
  have e1: "np_load [''ExpectedOutputs'', ''arrays.npz''] (npz_tree renamed_archive) = Inr expected_archive"
    by (simp add: np_load_def read_file_def npz_tree_def)
  have k1: "set (map fst renamed_archive) \<noteq> set (map fst expected_archive)"
    by code_simp
  have r1: "assert_npz [''Outputs'', ''arrays.npz''] [''ExpectedOutputs'', ''arrays.npz''] (npz_tree renamed_archive)
        = ([], Inl (KeyError ''The .npz archives have different keys.''))"
    by (rule assert_npz_keys_first[OF a1 e1, unfolded if_P[OF k1]])
  have r2: "assert_npz [''Outputs'', ''arrays.npz''] [''ExpectedOutputs'', ''arrays.npz''] (npz_tree close_archive)
        = ([''x'', ''y''], Inr ())"
    by code_simp
  from a1 e1 k1 r1 r2 show ?thesis by blast
qed

text \<open>
  Claim C8. \<open>assert_json\<close> passes exactly when the two parsed documents are equal under
  Python's equality \<open>py_eq\<close>, and raises an assertion error otherwise. No tolerance is
  involved: two floats are equal only when they are the same number. By the same rule
  the integer 1 equals the float 1.0, so \<^verbatim>\<open>{"a": 1}\<close> and \<^verbatim>\<open>{"a": 1.0}\<close> compare equal.
\<close>

theorem assert_json_exact:
  assumes "json_load output_file_dir t = Inr data"
    and "json_load expected_output_file_dir t = Inr expected_data"
  shows "assert_json output_file_dir expected_output_file_dir t =
           (if py_eq data expected_data then Inr () else Inl AssertionError)
       \<and> py_eq (JFloat x) (JFloat y) = (x = y)
       \<and> py_eq (JDict [(''a'', JInt 1)]) (JDict [(''a'', JFloat 1)])"
  using assms by (auto simp: assert_json_def)

text \<open>The documents \<^verbatim>\<open>{"a": 1.0}\<close> and \<^verbatim>\<open>{"a": 1}\<close> pass; \<^verbatim>\<open>{"a": 1.00000001}\<close> does not.\<close>

theorem assert_json_exact_witness:
  "json_load [''Outputs'', ''doc.json''] (json_tree (JDict [(''a'', JFloat 1)])) = Inr (JDict [(''a'', JFloat 1)])
   \<and> json_load [''ExpectedOutputs'', ''doc.json''] (json_tree (JDict [(''a'', JFloat 1)]))
        = Inr (JDict [(''a'', JInt 1)])
   \<and> assert_json [''Outputs'', ''doc.json''] [''ExpectedOutputs'', ''doc.json'']
        (json_tree (JDict [(''a'', JFloat 1)])) = Inr ()
   \<and> assert_json [''Outputs'', ''doc.json''] [''ExpectedOutputs'', ''doc.json'']
        (json_tree (JDict [(''a'', JFloat (1 + 1 / 10 ^ 8))])) = Inl AssertionError"
proof -
  have a1: "json_load [''Outputs'', ''doc.json''] (json_tree d) = Inr d" for d
    by (simp add: json_load_def read_file_def json_tree_def)
  have e1: "json_load [''ExpectedOutputs'', ''doc.json''] (json_tree d) = Inr (JDict [(''a'', JInt 1)])" for d
    by (simp add: json_load_def read_file_def json_tree_def)
  have r1: "assert_json [''Outputs'', ''doc.json''] [''ExpectedOutputs'', ''doc.json'']
        (json_tree (JDict [(''a'', JFloat 1)])) = Inr ()"
    using assert_json_exact[OF a1 e1, of "JDict [(''a'', JFloat 1)]"] by simp
  have r2: "assert_json [''Outputs'', ''doc.json''] [''ExpectedOutputs'', ''doc.json'']
        (json_tree (JDict [(''a'', JFloat (1 + 1 / 10 ^ 8))])) = Inl AssertionError"
    using assert_json_exact[OF a1 e1, of "JDict [(''a'', JFloat (1 + 1 / 10 ^ 8))]"] by simp
  from a1 e1 r1 r2 show ?thesis by blast
qed

section \<open>Case numbering\<close>



text \<open>When all existing numbers are negative the candidate range is empty and \<^verbatim>\<open>min\<close> raises.\<close>

lemma new_case_number_all_negative:
  assumes "case_numbers \<noteq> []" "\<forall>n\<in>set case_numbers. n < 0"
  shows "new_case_number case_numbers = Inl (ValueError ''min() arg is an empty sequence'')"
proof -
  from assms have "Max (set case_numbers) \<in> set case_numbers" by (intro Max_in) simp_all
  with assms(2) have "Max (set case_numbers) < 0" by blast
  then have "[1..Max (set case_numbers) + 1] = []" by simp
  with assms(1) show ?thesis by (simp add: new_case_number_def Let_def)
qed

section \<open>Comparison of output trees\<close>

lemma compare_files_result:
  assumes "out \<noteq> []" "compare_files expected out files t = (t', r)"
  shows "case r of
           Inr u \<Rightarrow> t' = t \<and> (\<forall>rf\<in>set files. assert_file (out @ fst rf @ [snd rf]) (expected @ fst rf @ [snd rf]) t = Inr ())
         | Inl e \<Rightarrow> \<not> is_dir t' out
               \<and> (\<exists>rf\<in>set files. assert_file (out @ fst rf @ [snd rf]) (expected @ fst rf @ [snd rf]) t \<noteq> Inr ())
               \<and> (is_dir t out \<longrightarrow> t' = delete out t \<and> lookup t' out = None
                     \<and> (\<exists>rf\<in>set files. assert_file (out @ fst rf @ [snd rf]) (expected @ fst rf @ [snd rf]) t = Inl e))"
  using assms(2)
proof (induction files)
  case Nil
  then show ?case by auto
next
  case (Cons rf files)
  obtain rel f where rf: "rf = (rel, f)" by (cases rf)
  show ?case
  proof (cases "assert_file (out @ rel @ [f]) (expected @ rel @ [f]) t")
    case (Inr u)
    with Cons rf show ?thesis by (auto split: sum.splits)
  next
    case (Inl e)
    show ?thesis
    proof (cases "is_dir t out")
      case True
      with Inl Cons.prems rf have "t' = delete out t" "r = Inl e"
        by (simp_all add: rmtree_dir)
      with True Inl rf assms(1) show ?thesis
        by (simp add: lookup_delete is_dir_def)
    next
      case False
      then obtain e' where "rmtree out t = Inl e'"
        by (auto simp: rmtree_def is_dir_def split: option.splits node.splits)
      with Inl Cons.prems rf have "t' = t" "r = Inl e'" by simp_all
      with False Inl rf show ?thesis by simp
    qed
  qed
qed

lemma compare_files_pass:
  "(snd (compare_files expected out files t) = Inr ())
     = (\<forall>rf\<in>set files. assert_file (out @ fst rf @ [snd rf]) (expected @ fst rf @ [snd rf]) t = Inr ())"
proof (induction files)
  case Nil show ?case by simp
next
  case (Cons rf files)
  obtain rel f where rf: "rf = (rel, f)" by (cases rf)
  show ?case
  proof (cases "assert_file (out @ rel @ [f]) (expected @ rel @ [f]) t")
    case (Inr u) with Cons rf show ?thesis by simp
  next
    case (Inl e) with rf show ?thesis by (simp split: sum.splits)
  qed
qed

text \<open>
  Claim C5. When the check of some expected file against its actual counterpart does not
  pass, \<open>compare_outputs\<close> raises and no actual outputs directory is left. If the
  directory existed, it has been deleted as a whole, nothing else has changed, and the
  error raised is the one the check of an expected file raised.
\<close>

theorem compare_outputs_failure_removes_outputs:
  assumes "outputs_base_dir \<noteq> []"
    and "\<exists>rf\<in>set (walk_files expected_outputs_base_dir t).
           assert_file (outputs_base_dir @ fst rf @ [snd rf])
                       (expected_outputs_base_dir @ fst rf @ [snd rf]) t \<noteq> Inr ()"
  shows "\<exists>t' e. compare_outputs expected_outputs_base_dir outputs_base_dir t = (t', Inl e)
       \<and> \<not> is_dir t' outputs_base_dir
       \<and> (is_dir t outputs_base_dir \<longrightarrow>
             t' = delete outputs_base_dir t \<and> lookup t' outputs_base_dir = None
           \<and> (\<exists>rf\<in>set (walk_files expected_outputs_base_dir t).
                 assert_file (outputs_base_dir @ fst rf @ [snd rf])
                             (expected_outputs_base_dir @ fst rf @ [snd rf]) t = Inl e))"
proof -
  let ?files = "walk_files expected_outputs_base_dir t"
  obtain t' r where run: "compare_files expected_outputs_base_dir outputs_base_dir ?files t = (t', r)"
    by (cases "compare_files expected_outputs_base_dir outputs_base_dir ?files t") auto
  from assms(2) have "snd (compare_files expected_outputs_base_dir outputs_base_dir ?files t) \<noteq> Inr ()"
    unfolding compare_files_pass by blast
  with run obtain e where r: "r = Inl e" by (cases r) simp_all
  from compare_files_result[OF assms(1) run, unfolded r sum.case]
  have "\<not> is_dir t' outputs_base_dir
       \<and> (is_dir t outputs_base_dir \<longrightarrow>
             t' = delete outputs_base_dir t \<and> lookup t' outputs_base_dir = None
           \<and> (\<exists>rf\<in>set ?files.
                 assert_file (outputs_base_dir @ fst rf @ [snd rf])
                             (expected_outputs_base_dir @ fst rf @ [snd rf]) t = Inl e))"
    by blast
  with run r show ?thesis unfolding compare_outputs_def by blast
qed

text \<open>
  The model's frame with the last value changed from 4 to 5: the comparison raises the
  assertion error and only \<^verbatim>\<open>ExpectedOutputs\<close> is left.
\<close>

theorem compare_outputs_failure_removes_outputs_witness:
  "assert_file [''Outputs'', ''df.csv''] [''ExpectedOutputs'', ''df.csv''] (csv_tree main_df changed_frame)
     = Inl AssertionError
   \<and> is_dir (csv_tree main_df changed_frame) [''Outputs'']
   \<and> compare_outputs [''ExpectedOutputs''] [''Outputs''] (csv_tree main_df changed_frame)
        = (Dir [(''ExpectedOutputs'', Dir [(''df.csv'', File (Csv main_df))])], Inl AssertionError)
   \<and> lookup (Dir [(''ExpectedOutputs'', Dir [(''df.csv'', File (Csv main_df))])]) [''Outputs''] = None"
proof -
  let ?t = "csv_tree main_df changed_frame"
  have ne: "[''Outputs''] \<noteq> ([] :: path)" by simp
  have check: "assert_file [''Outputs'', ''df.csv''] [''ExpectedOutputs'', ''df.csv''] ?t = Inl AssertionError"
    by code_simp
  have files: "([], ''df.csv'') \<in> set (walk_files [''ExpectedOutputs''] ?t)"
    by (simp add: walk_files_def walk_def csv_tree_def)
  have failing: "\<exists>rf\<in>set (walk_files [''ExpectedOutputs''] ?t).
           assert_file ([''Outputs''] @ fst rf @ [snd rf]) ([''ExpectedOutputs''] @ fst rf @ [snd rf]) ?t
             \<noteq> Inr ()"
    using files check by (intro bexI[of _ "([], ''df.csv'')"]) simp_all
  have dir: "is_dir ?t [''Outputs'']"
    by (simp add: is_dir_def csv_tree_def)
  have run: "compare_outputs [''ExpectedOutputs''] [''Outputs''] ?t
        = (Dir [(''ExpectedOutputs'', Dir [(''df.csv'', File (Csv main_df))])], Inl AssertionError)"
    by code_simp
  from compare_outputs_failure_removes_outputs[OF ne failing] obtain t' e where
    raised: "compare_outputs [''ExpectedOutputs''] [''Outputs''] ?t = (t', Inl e)"
    and gone: "is_dir ?t [''Outputs''] \<longrightarrow> lookup t' [''Outputs''] = None"
    by blast
  from raised run have "t' = Dir [(''ExpectedOutputs'', Dir [(''df.csv'', File (Csv main_df))])]"
    by simp
  with gone dir
  have "lookup (Dir [(''ExpectedOutputs'', Dir [(''df.csv'', File (Csv main_df))])]) [''Outputs''] = None"
    by blast
  with check dir run show ?thesis by blast
qed

lemma assert_file_agree:
  assumes "lookup t' out = lookup t out" "lookup t' expected = lookup t expected"
  shows "assert_file out expected t' = assert_file out expected t"
proof -
  have "read_file out t' = read_file out t" "read_file expected t' = read_file expected t"
    using assms by (simp_all add: read_file_def)
  then have rd: "read_csv out t' = read_csv out t" "read_csv expected t' = read_csv expected t"
    "json_load out t' = json_load out t" "json_load expected t' = json_load expected t"
    "np_load out t' = np_load out t" "np_load expected t' = np_load expected t"
    by (simp_all add: read_csv_def json_load_def np_load_def)
  have af: "assert_csv out expected t' = assert_csv out expected t"
    "assert_json out expected t' = assert_json out expected t"
    "assert_npz out expected t' = assert_npz out expected t"
    unfolding assert_csv_def assert_json_def assert_npz_def rd by (rule refl)+
  show ?thesis unfolding assert_file_def af by (rule refl)
qed

text \<open>
  Claim C10. The outcome of the comparison is decided by the expected tree and by the
  actual files at the relative paths of the expected files. Two file systems with the
  same \<^verbatim>\<open>ExpectedOutputs\<close> tree that agree at those actual paths both pass or both fail,
  whatever else their outputs directories hold; so extra output files leave a passing
  comparison passing.
\<close>

theorem compare_outputs_ignores_extra_files:
  assumes "lookup t' expected_outputs_base_dir = lookup t expected_outputs_base_dir"
    and "\<forall>rf\<in>set (walk_files expected_outputs_base_dir t).
           lookup t' (outputs_base_dir @ fst rf @ [snd rf]) = lookup t (outputs_base_dir @ fst rf @ [snd rf])"
  shows "(snd (compare_outputs expected_outputs_base_dir outputs_base_dir t') = Inr ())
       = (snd (compare_outputs expected_outputs_base_dir outputs_base_dir t) = Inr ())"
proof -
  have w: "walk_files expected_outputs_base_dir t' = walk_files expected_outputs_base_dir t"
    using assms(1) by (simp add: walk_files_def walk_def)
  have "assert_file (outputs_base_dir @ fst rf @ [snd rf]) (expected_outputs_base_dir @ fst rf @ [snd rf]) t'
      = assert_file (outputs_base_dir @ fst rf @ [snd rf]) (expected_outputs_base_dir @ fst rf @ [snd rf]) t"
    if "rf \<in> set (walk_files expected_outputs_base_dir t)" for rf
  proof (rule assert_file_agree)
    from that assms(2) show "lookup t' (outputs_base_dir @ fst rf @ [snd rf]) = lookup t (outputs_base_dir @ fst rf @ [snd rf])"
      by blast
    show "lookup t' (expected_outputs_base_dir @ fst rf @ [snd rf]) = lookup t (expected_outputs_base_dir @ fst rf @ [snd rf])"
      using assms(1) by (simp add: lookup_append)
  qed
  then show ?thesis by (simp add: compare_outputs_def compare_files_pass w)
qed

text \<open>
  The model's output plus a mismatching \<^verbatim>\<open>extra.csv\<close> and a \<^verbatim>\<open>logs\<close> folder, neither of
  them expected: the comparison passes as it does without them.
\<close>

theorem compare_outputs_ignores_extra_files_witness:
  "lookup extra_tree [''ExpectedOutputs''] = lookup (csv_tree main_df main_df) [''ExpectedOutputs'']
   \<and> lookup extra_tree [''Outputs'', ''df.csv'']
        = lookup (csv_tree main_df main_df) [''Outputs'', ''df.csv'']
   \<and> lookup extra_tree [''Outputs'', ''extra.csv''] = Some (File (Csv changed_frame))
   \<and> lookup (csv_tree main_df main_df) [''Outputs'', ''extra.csv''] = None
   \<and> snd (compare_outputs [''ExpectedOutputs''] [''Outputs''] (csv_tree main_df main_df)) = Inr ()
   \<and> snd (compare_outputs [''ExpectedOutputs''] [''Outputs''] extra_tree) = Inr ()"
proof -
  have same: "lookup extra_tree [''ExpectedOutputs'']
                = lookup (csv_tree main_df main_df) [''ExpectedOutputs'']"
    by (simp add: extra_tree_def csv_tree_def)
  have df: "lookup extra_tree [''Outputs'', ''df.csv'']
                = lookup (csv_tree main_df main_df) [''Outputs'', ''df.csv'']"
    by (simp add: extra_tree_def csv_tree_def)
  have extra: "lookup extra_tree [''Outputs'', ''extra.csv''] = Some (File (Csv changed_frame))"
    "lookup (csv_tree main_df main_df) [''Outputs'', ''extra.csv''] = None"
    by (simp_all add: extra_tree_def csv_tree_def)
  have agree: "\<forall>rf\<in>set (walk_files [''ExpectedOutputs''] (csv_tree main_df main_df)).
         lookup extra_tree ([''Outputs''] @ fst rf @ [snd rf])
           = lookup (csv_tree main_df main_df) ([''Outputs''] @ fst rf @ [snd rf])"
    by (simp add: walk_files_def walk_def extra_tree_def csv_tree_def)
  have base: "snd (compare_outputs [''ExpectedOutputs''] [''Outputs''] (csv_tree main_df main_df))
                = Inr ()"
    by code_simp
  from compare_outputs_ignores_extra_files[OF same agree] base same df extra
  show ?thesis by blast
qed

section \<open>Recording outputs in create mode\<close>

lemma copy_outputs_missing_destination:
  "lookup t dst = None \<Longrightarrow> copy_outputs src dst t = (t, Inl (FileNotFoundError dst))"
  by (simp add: copy_outputs_def rmtree_def)

text \<open>
  With an existing destination \<open>copy_outputs\<close> replaces it by the output tree without the
  HTML files; a folder that holds only such files is not created.
\<close>

lemma copy_outputs_existing_destination:
  "copy_outputs [''Outputs''] [''ExpectedOutputs''] report_tree
     = (Dir [(''Outputs'', Dir [(''df.csv'', File (Csv main_df)),
                               (''report.html'', File (Text ''run 42'')),
                               (''plots'', Dir [(''curve.html'', File (Text ''run 42''))]),
                               (''arrays'', Dir [(''a.npz'', File (Npz [(''x'', [1])]))])]),
             (''ExpectedOutputs'', Dir [(''df.csv'', File (Csv main_df)),
                                       (''arrays'', Dir [(''a.npz'', File (Npz [(''x'', [1])]))])])],
        Inr ())"
  by code_simp

text \<open>
  Claim C6. Create and update mode are to replace \<^verbatim>\<open>ExpectedOutputs\<close> by the fresh output
  tree, also for a case that has no such directory yet. The code does not do so for a
  new case: \<open>copy_outputs\<close> starts with \<^verbatim>\<open>shutil.rmtree(dst)\<close>, which raises on a missing
  directory. On the example project a create run makes \<open>Case02\<close>, copies the inputs,
  runs the model and then raises \<^verbatim>\<open>FileNotFoundError\<close> for \<^verbatim>\<open>Case02/ExpectedOutputs\<close>: no
  expected output is recorded and the \<^verbatim>\<open>Outputs\<close> directory of the run stays behind.
\<close>

theorem create_mode_fresh_case_fails:
  "snd (test_snapshots example_externals ''create'' example_world)
     = Inl (FileNotFoundError [''tests'', ''snapshots'', ''Cases'', ''Case02'', ''ExpectedOutputs''])
   \<and> lookup (fs (fst (test_snapshots example_externals ''create'' example_world)))
        [''tests'', ''snapshots'', ''Cases'', ''Case02'', ''ExpectedOutputs''] = None
   \<and> is_dir (fs (fst (test_snapshots example_externals ''create'' example_world)))
        [''tests'', ''snapshots'', ''Cases'', ''Case02'', ''Outputs'']"
  by code_simp

end
